theory Spec2Isabelle
  imports Complex_Main
begin

section \<open>Data model of the relay (src/ws-socket.ts, class CoinbaseRelay)\<close>

text \<open>
  The relay keeps one upstream WebSocket to the exchange and serves any number of
  downstream sockets. Every listener and method of the class is a function from the state
  of the relay to its next state; what a method sends or emits is appended to a log in
  the state.
\<close>

text \<open>
  The \<^verbatim>\<open>readyState\<close> of a \<^verbatim>\<open>ws\<close> WebSocket object.
\<close>

datatype ReadyState = CONNECTING | OPEN | CLOSING | CLOSED

text \<open>
  A value produced by \<^verbatim>\<open>JSON.parse\<close>. An object is the list of its own properties
  (each key once, as \<^verbatim>\<open>JSON.parse\<close> leaves it). A property that is absent reads as
  \<^verbatim>\<open>undefined\<close>, modelled by \<open>None\<close>.
\<close>

datatype json =
    JNull
  | JBool bool
  | JNum real
  | JStr string
  | JArr "json list"
  | JObj "(string \<times> json) list"

text \<open>The interface \<^verbatim>\<open>ConnectionStatus\<close>; an optional field is an option.\<close>

record ConnectionStatus =
  connected :: bool
  error :: "string option"
  coinbaseConnected :: "bool option"

text \<open>
  The object that \<^verbatim>\<open>subscribeToCoinbase\<close> and \<^verbatim>\<open>unsubscribeFromCoinbase\<close> build and
  send upstream (before \<^verbatim>\<open>JSON.stringify\<close>).
\<close>

record UpstreamMessage =
  msg_type :: string
  product_ids :: "string list"
  channels :: "string list"

datatype payload = Status ConnectionStatus | Message json

text \<open>\<^verbatim>\<open>io.emit\<close> reaches every connected socket, \<^verbatim>\<open>socket.emit\<close> one socket.\<close>

datatype target = Broadcast | ToSocket string

text \<open>
  The fields of the class, and the effects of its methods written as logs:
  \<^item> \<open>sockets\<close>: the keys of \<^verbatim>\<open>this.io.sockets.sockets\<close>, the connected socket ids;
  \<^item> \<open>coinbaseWs\<close>: \<open>None\<close> for \<^verbatim>\<open>null\<close>, otherwise the \<^verbatim>\<open>readyState\<close> of the
    WebSocket object the field refers to;
  \<^item> \<open>wsCreated\<close>: how many times \<^verbatim>\<open>new WebSocket(...)\<close> was evaluated;
  \<^item> \<open>subscriptions\<close>, \<open>socketSubscriptions\<close>: the two \<^verbatim>\<open>Map<string, Set<string>>\<close>;
    a JavaScript \<^verbatim>\<open>Set\<close> is the list of its elements in insertion order;
  \<^item> \<open>wsSent\<close>: the messages passed to \<^verbatim>\<open>this.coinbaseWs.send\<close>, oldest first;
  \<^item> \<open>emitted\<close>: the events passed to \<^verbatim>\<open>emit\<close>, oldest first;
  \<^item> \<open>timeouts\<close>: the delays passed to \<^verbatim>\<open>setTimeout\<close>, oldest first.
\<close>

record CoinbaseRelay =
  sockets :: "string set"
  coinbaseWs :: "ReadyState option"
  wsCreated :: nat
  reconnectAttempts :: nat
  subscriptions :: "string \<rightharpoonup> string list"
  socketSubscriptions :: "string \<rightharpoonup> string list"
  wsSent :: "UpstreamMessage list"
  emitted :: "(target \<times> string \<times> payload) list"
  timeouts :: "nat list"

definition maxReconnectAttempts :: nat where
  "maxReconnectAttempts = 5"

definition reconnectDelay :: nat where
  "reconnectDelay = 5000"

subsection \<open>JavaScript sets\<close>

definition set_add :: "string \<Rightarrow> string list \<Rightarrow> string list" where
  "set_add x xs = (if x \<in> set xs then xs else xs @ [x])"

definition set_delete :: "string \<Rightarrow> string list \<Rightarrow> string list" where
  "set_delete x xs = removeAll x xs"

text \<open>
  The elements of \<^verbatim>\<open>m.get(k) || []\<close>, in insertion order and as a set: none when the
  key is absent.
\<close>

definition elements :: "string list option \<Rightarrow> string list" where
  "elements e = (case e of None \<Rightarrow> [] | Some xs \<Rightarrow> xs)"

definition members :: "string list option \<Rightarrow> string set" where
  "members e = set (elements e)"

section \<open>The subscription registry\<close>

definition addSubscription :: "string \<Rightarrow> string \<Rightarrow> CoinbaseRelay \<Rightarrow> CoinbaseRelay" where
  "addSubscription socketId productId s =
     (let s1 = (if subscriptions s productId = None
                then s\<lparr>subscriptions := (subscriptions s)(productId \<mapsto> [])\<rparr>
                else s);
          s2 = (case subscriptions s1 productId of
                  None \<Rightarrow> s1
                | Some subscribers \<Rightarrow>
                    s1\<lparr>subscriptions :=
                         (subscriptions s1)(productId \<mapsto> set_add socketId subscribers)\<rparr>);
          s3 = (if socketSubscriptions s2 socketId = None
                then s2\<lparr>socketSubscriptions := (socketSubscriptions s2)(socketId \<mapsto> [])\<rparr>
                else s2)
      in (case socketSubscriptions s3 socketId of
            None \<Rightarrow> s3
          | Some products \<Rightarrow>
              s3\<lparr>socketSubscriptions :=
                   (socketSubscriptions s3)(socketId \<mapsto> set_add productId products)\<rparr>))"

definition removeSubscription :: "string \<Rightarrow> string \<Rightarrow> CoinbaseRelay \<Rightarrow> CoinbaseRelay" where
  "removeSubscription socketId productId s =
     (let s1 = (case subscriptions s productId of
                  None \<Rightarrow> s
                | Some subscribers \<Rightarrow>
                    (let subscribers' = set_delete socketId subscribers
                     in if length subscribers' = 0
                        then s\<lparr>subscriptions := (subscriptions s)(productId := None)\<rparr>
                        else s\<lparr>subscriptions :=
                                (subscriptions s)(productId \<mapsto> subscribers')\<rparr>))
      in (case socketSubscriptions s1 socketId of
            None \<Rightarrow> s1
          | Some products \<Rightarrow>
              (let products' = set_delete productId products
               in if length products' = 0
                  then s1\<lparr>socketSubscriptions := (socketSubscriptions s1)(socketId := None)\<rparr>
                  else s1\<lparr>socketSubscriptions :=
                           (socketSubscriptions s1)(socketId \<mapsto> products')\<rparr>)))"

section \<open>Sending upstream\<close>

definition subscribe_msg :: "string \<Rightarrow> UpstreamMessage" where
  "subscribe_msg productId =
     \<lparr>msg_type = ''subscribe'', product_ids = [productId], channels = [''ticker'']\<rparr>"

definition unsubscribe_msg :: "string \<Rightarrow> UpstreamMessage" where
  "unsubscribe_msg productId =
     \<lparr>msg_type = ''unsubscribe'', product_ids = [productId], channels = [''ticker'']\<rparr>"

definition subscribeToCoinbase :: "string \<Rightarrow> CoinbaseRelay \<Rightarrow> CoinbaseRelay" where
  "subscribeToCoinbase productId s =
     (if coinbaseWs s = None \<or> coinbaseWs s \<noteq> Some OPEN then s
      else s\<lparr>wsSent := wsSent s @ [subscribe_msg productId]\<rparr>)"

definition unsubscribeFromCoinbase :: "string \<Rightarrow> CoinbaseRelay \<Rightarrow> CoinbaseRelay" where
  "unsubscribeFromCoinbase productId s =
     (let hasNoSubscribers =
            (subscriptions s productId = None \<or>
             (case subscriptions s productId of
                None \<Rightarrow> False
              | Some subscribers \<Rightarrow> length subscribers = 0))
      in if hasNoSubscribers \<and> coinbaseWs s = Some OPEN
         then s\<lparr>wsSent := wsSent s @ [unsubscribe_msg productId]\<rparr>
         else s)"

section \<open>Cleaning up after a disconnected client\<close>

text \<open>
  The callback of \<^verbatim>\<open>productIds.forEach\<close> in \<^verbatim>\<open>cleanupClient\<close>, and the loop over
  the array copied from the client's set before the loop starts.
\<close>

definition cleanup_step :: "string \<Rightarrow> string \<Rightarrow> CoinbaseRelay \<Rightarrow> CoinbaseRelay" where
  "cleanup_step socketId productId s =
     (let s1 = removeSubscription socketId productId s
      in case subscriptions s1 productId of
           None \<Rightarrow> unsubscribeFromCoinbase productId s1
         | Some subscribers \<Rightarrow>
             if length subscribers = 0 then unsubscribeFromCoinbase productId s1 else s1)"

fun cleanup_each :: "string \<Rightarrow> string list \<Rightarrow> CoinbaseRelay \<Rightarrow> CoinbaseRelay" where
  "cleanup_each socketId [] s = s"
| "cleanup_each socketId (productId # rest) s =
     cleanup_each socketId rest (cleanup_step socketId productId s)"

definition cleanupClient :: "string \<Rightarrow> CoinbaseRelay \<Rightarrow> CoinbaseRelay" where
  "cleanupClient socketId s =
     (let productIds = elements (socketSubscriptions s socketId);
          s1 = cleanup_each socketId productIds s
      in s1\<lparr>socketSubscriptions := (socketSubscriptions s1)(socketId := None)\<rparr>)"

section \<open>The upstream connection\<close>

text \<open>
  \<^verbatim>\<open>initializeCoinbaseWebSocket\<close> returns at once when the current WebSocket is open.
  Otherwise it creates a WebSocket, which starts in state \<^verbatim>\<open>CONNECTING\<close>, stores it in
  \<^verbatim>\<open>this.coinbaseWs\<close> and registers the four listeners below on it.
\<close>

definition initializeCoinbaseWebSocket :: "CoinbaseRelay \<Rightarrow> CoinbaseRelay" where
  "initializeCoinbaseWebSocket s =
     (if coinbaseWs s = Some OPEN then s
      else s\<lparr>coinbaseWs := Some CONNECTING, wsCreated := wsCreated s + 1\<rparr>)"

text \<open>The field initialisers of the class, then the constructor body.\<close>

definition field_defaults :: CoinbaseRelay where
  "field_defaults =
     \<lparr>sockets = {}, coinbaseWs = None, wsCreated = 0, reconnectAttempts = 0,
      subscriptions = Map.empty, socketSubscriptions = Map.empty,
      wsSent = [], emitted = [], timeouts = []\<rparr>"

definition constructor :: CoinbaseRelay where
  "constructor = initializeCoinbaseWebSocket field_defaults"

definition io_emit :: "string \<Rightarrow> ConnectionStatus \<Rightarrow> CoinbaseRelay \<Rightarrow> CoinbaseRelay" where
  "io_emit event status s = s\<lparr>emitted := emitted s @ [(Broadcast, event, Status status)]\<rparr>"

text \<open>The listener for \<^verbatim>\<open>"open"\<close>.\<close>

definition on_open :: "CoinbaseRelay \<Rightarrow> CoinbaseRelay" where
  "on_open s =
     io_emit ''coinbase-status''
       \<lparr>connected = True, error = None, coinbaseConnected = None\<rparr>
       (s\<lparr>reconnectAttempts := 0\<rparr>)"

text \<open>The listener for \<^verbatim>\<open>"error"\<close>; its argument is \<^verbatim>\<open>err.message\<close>.\<close>

definition on_error :: "string \<Rightarrow> CoinbaseRelay \<Rightarrow> CoinbaseRelay" where
  "on_error err_message s =
     io_emit ''coinbase-status''
       \<lparr>connected = False, error = Some err_message, coinbaseConnected = None\<rparr> s"

text \<open>The listener for \<^verbatim>\<open>"close"\<close>: the status broadcast, then the reconnect timer.\<close>

definition on_close :: "CoinbaseRelay \<Rightarrow> CoinbaseRelay" where
  "on_close s =
     (let s1 = io_emit ''coinbase-status''
                 \<lparr>connected = False, error = None, coinbaseConnected = None\<rparr> s
      in if reconnectAttempts s1 < maxReconnectAttempts
         then (let delay = reconnectDelay * 2 ^ reconnectAttempts s1
               in s1\<lparr>timeouts := timeouts s1 @ [delay]\<rparr>)
         else s1)"

text \<open>The callback given to \<^verbatim>\<open>setTimeout\<close>, run when the timer fires.\<close>

definition on_timeout :: "CoinbaseRelay \<Rightarrow> CoinbaseRelay" where
  "on_timeout s =
     initializeCoinbaseWebSocket (s\<lparr>reconnectAttempts := reconnectAttempts s + 1\<rparr>)"

text \<open>
  The \<^verbatim>\<open>ws\<close> library moves a socket to \<^verbatim>\<open>CLOSED\<close> before it emits \<^verbatim>\<open>"close"\<close> on
  it, and the listener then runs. The socket that closes is the one
  \<^verbatim>\<open>this.coinbaseWs\<close> refers to.
\<close>

definition socket_closed :: "CoinbaseRelay \<Rightarrow> CoinbaseRelay" where
  "socket_closed s =
     (case coinbaseWs s of
        None \<Rightarrow> s
      | Some state \<Rightarrow> s\<lparr>coinbaseWs := Some CLOSED\<rparr>)"

definition close_event :: "CoinbaseRelay \<Rightarrow> CoinbaseRelay" where
  "close_event s = on_close (socket_closed s)"


section \<open>Requests of a downstream socket\<close>

definition on_subscribe :: "string \<Rightarrow> string \<Rightarrow> CoinbaseRelay \<Rightarrow> CoinbaseRelay" where
  "on_subscribe socketId productId s =
     subscribeToCoinbase productId (addSubscription socketId productId s)"

definition on_unsubscribe :: "string \<Rightarrow> string \<Rightarrow> CoinbaseRelay \<Rightarrow> CoinbaseRelay" where
  "on_unsubscribe socketId productId s =
     unsubscribeFromCoinbase productId (removeSubscription socketId productId s)"

definition on_disconnect :: "string \<Rightarrow> CoinbaseRelay \<Rightarrow> CoinbaseRelay" where
  "on_disconnect socketId s = cleanupClient socketId s"

section \<open>Inbound upstream messages\<close>

datatype js_error = SyntaxError | TypeError

text \<open>JavaScript truthiness of a parsed value; \<open>None\<close> is \<^verbatim>\<open>undefined\<close>.\<close>

fun truthy :: "json option \<Rightarrow> bool" where
  "truthy None = False"
| "truthy (Some JNull) = False"
| "truthy (Some (JBool b)) = b"
| "truthy (Some (JNum x)) = (x \<noteq> 0)"
| "truthy (Some (JStr str)) = (str \<noteq> [])"
| "truthy (Some (JArr xs)) = True"
| "truthy (Some (JObj kvs)) = True"

text \<open>
  Reading one of the properties \<^verbatim>\<open>type\<close>, \<^verbatim>\<open>product_id\<close>, \<^verbatim>\<open>channels\<close>,
  \<^verbatim>\<open>product_ids\<close>: \<^verbatim>\<open>null\<close> throws a TypeError, an object gives its own property,
  and a boolean, number, string or array has none of these four.
\<close>

fun get_prop :: "json \<Rightarrow> string \<Rightarrow> js_error + json option" where
  "get_prop JNull k = Inl TypeError"
| "get_prop (JObj kvs) k = Inr (map_of kvs k)"
| "get_prop v k = Inr None"

text \<open>
  \<^verbatim>\<open>this.subscriptions.get(key)\<close> for a parsed value: the keys of the map are strings
  (the \<^verbatim>\<open>productId: string\<close> of the subscribe listener), so only a string finds one.
\<close>

fun get_subscribers :: "CoinbaseRelay \<Rightarrow> json option \<Rightarrow> string list option" where
  "get_subscribers s (Some (JStr k)) = subscriptions s k"
| "get_subscribers s v = None"

text \<open>
  \<^verbatim>\<open>subscribers.forEach\<close>: the socket is looked up among the connected sockets and the
  event emitted to it when it is there (\<^verbatim>\<open>socket?.emit\<close>).
\<close>

fun emit_each :: "string \<Rightarrow> json \<Rightarrow> string list \<Rightarrow> CoinbaseRelay \<Rightarrow> CoinbaseRelay" where
  "emit_each event message [] s = s"
| "emit_each event message (socketId # rest) s =
     emit_each event message rest
       (if socketId \<in> sockets s
        then s\<lparr>emitted := emitted s @ [(ToSocket socketId, event, Message message)]\<rparr>
        else s)"

text \<open>
  A function that can throw returns \<open>Inl (e, s')\<close>, the error and the state reached
  when it was thrown, or \<open>Inr s'\<close>.
\<close>

definition handleTickerMessage ::
  "json \<Rightarrow> CoinbaseRelay \<Rightarrow> js_error \<times> CoinbaseRelay + CoinbaseRelay" where
  "handleTickerMessage message s =
     (case get_prop message ''product_id'' of
        Inl e \<Rightarrow> Inl (e, s)
      | Inr product_id \<Rightarrow>
          if \<not> truthy product_id then Inr s
          else (case get_subscribers s product_id of
                  None \<Rightarrow> Inr s
                | Some subscribers \<Rightarrow>
                    if length subscribers \<noteq> 0
                    then Inr (emit_each ''ticker'' message subscribers s)
                    else Inr s))"

text \<open>
  The callback of \<^verbatim>\<open>flatMap\<close>, \<^verbatim>\<open>channel.product_ids || []\<close>, with the flattening by
  one level that \<^verbatim>\<open>flatMap\<close> applies to its result: an array contributes its elements,
  any other value itself.
\<close>

definition channel_product_ids :: "json \<Rightarrow> js_error + json list" where
  "channel_product_ids channel =
     (case get_prop channel ''product_ids'' of
        Inl e \<Rightarrow> Inl e
      | Inr v \<Rightarrow>
          if truthy v
          then (case v of
                  Some (JArr xs) \<Rightarrow> Inr xs
                | Some w \<Rightarrow> Inr [w]
                | None \<Rightarrow> Inr [])
          else Inr [])"

fun flatMap_product_ids :: "json list \<Rightarrow> js_error + json list" where
  "flatMap_product_ids [] = Inr []"
| "flatMap_product_ids (channel # rest) =
     (case channel_product_ids channel of
        Inl e \<Rightarrow> Inl e
      | Inr xs \<Rightarrow>
          (case flatMap_product_ids rest of
             Inl e \<Rightarrow> Inl e
           | Inr ys \<Rightarrow> Inr (xs @ ys)))"

text \<open>\<^verbatim>\<open>productIds.forEach\<close> in \<^verbatim>\<open>handleSubscriptionMessage\<close>.\<close>

fun confirm_each :: "json \<Rightarrow> json list \<Rightarrow> CoinbaseRelay \<Rightarrow> CoinbaseRelay" where
  "confirm_each message [] s = s"
| "confirm_each message (productId # rest) s =
     confirm_each message rest
       (case get_subscribers s (Some productId) of
          None \<Rightarrow> s
        | Some subscribers \<Rightarrow>
            if length subscribers \<noteq> 0
            then emit_each ''subscription-confirmed'' message subscribers s
            else s)"

text \<open>
  \<^verbatim>\<open>message.channels.flatMap\<close> is a function only when \<^verbatim>\<open>channels\<close> is an array; on
  any other truthy value the call throws a TypeError.
\<close>

definition handleSubscriptionMessage ::
  "json \<Rightarrow> CoinbaseRelay \<Rightarrow> js_error \<times> CoinbaseRelay + CoinbaseRelay" where
  "handleSubscriptionMessage message s =
     (case get_prop message ''channels'' of
        Inl e \<Rightarrow> Inl (e, s)
      | Inr chans \<Rightarrow>
          if \<not> truthy chans then Inr s
          else (case chans of
                  Some (JArr cs) \<Rightarrow>
                    (case flatMap_product_ids cs of
                       Inl e \<Rightarrow> Inl (e, s)
                     | Inr productIds \<Rightarrow> Inr (confirm_each message productIds s))
                | _ \<Rightarrow> Inl (TypeError, s)))"

text \<open>
  The statements of the \<^verbatim>\<open>try\<close> block that follow \<^verbatim>\<open>JSON.parse\<close>. Reading
  \<^verbatim>\<open>parsed.product_id\<close> has no effect and cannot throw once \<^verbatim>\<open>parsed.type\<close> has been
  read, so it is read before the test rather than inside the \<^verbatim>\<open>&&\<close>.
\<close>

definition dispatch_parsed ::
  "json \<Rightarrow> CoinbaseRelay \<Rightarrow> js_error \<times> CoinbaseRelay + CoinbaseRelay" where
  "dispatch_parsed parsed s =
     (case get_prop parsed ''type'' of
        Inl e \<Rightarrow> Inl (e, s)
      | Inr ty \<Rightarrow>
          (case get_prop parsed ''product_id'' of
             Inl e \<Rightarrow> Inl (e, s)
           | Inr product_id \<Rightarrow>
               if ty = Some (JStr ''ticker'') \<and> truthy product_id
               then handleTickerMessage parsed s
               else if ty = Some (JStr ''subscriptions'')
               then handleSubscriptionMessage parsed s
               else Inr s))"

text \<open>
  The listener for \<^verbatim>\<open>"message"\<close>. \<^verbatim>\<open>JSON.parse\<close> is a parameter: \<open>Inl\<close> when it
  throws. The \<^verbatim>\<open>catch\<close> clause logs the error and the listener returns, keeping
  whatever had been done before the throw.
\<close>

definition on_message ::
  "(string \<Rightarrow> js_error + json) \<Rightarrow> string \<Rightarrow> CoinbaseRelay \<Rightarrow> CoinbaseRelay" where
  "on_message JSON_parse data s =
     (case JSON_parse data of
        Inl e \<Rightarrow> s
      | Inr parsed \<Rightarrow>
          (case dispatch_parsed parsed s of
             Inl (e, s') \<Rightarrow> s'
           | Inr s' \<Rightarrow> s'))"

section \<open>Sequences of registry operations\<close>

datatype registry_op =
    Add string string
  | Remove string string
  | Cleanup string

fun apply_op :: "registry_op \<Rightarrow> CoinbaseRelay \<Rightarrow> CoinbaseRelay" where
  "apply_op (Add socketId productId) s = addSubscription socketId productId s"
| "apply_op (Remove socketId productId) s = removeSubscription socketId productId s"
| "apply_op (Cleanup socketId) s = cleanupClient socketId s"

fun run_ops :: "registry_op list \<Rightarrow> CoinbaseRelay \<Rightarrow> CoinbaseRelay" where
  "run_ops [] s = s"
| "run_ops (x # xs) s = run_ops xs (apply_op x s)"

section \<open>Invariants and reference states\<close>

text \<open>The two maps are mirror images of each other.\<close>

definition mirrored :: "CoinbaseRelay \<Rightarrow> bool" where
  "mirrored s =
     (\<forall>sid symbol. (sid \<in> members (subscriptions s symbol)) =
                   (symbol \<in> members (socketSubscriptions s sid)))"

text \<open>No key of either map holds an empty set.\<close>

definition no_empty_entry :: "CoinbaseRelay \<Rightarrow> bool" where
  "no_empty_entry s =
     (\<forall>k. subscriptions s k \<noteq> Some [] \<and> socketSubscriptions s k \<noteq> Some [])"

text \<open>
  The lists that stand for JavaScript sets have no repeated element.
\<close>

definition distinct_sets :: "CoinbaseRelay \<Rightarrow> bool" where
  "distinct_sets s =
     (\<forall>k. distinct (elements (subscriptions s k)) \<and>
          distinct (elements (socketSubscriptions s k)))"

text \<open>
  The relay once its first WebSocket has opened: the library has moved the socket to
  \<^verbatim>\<open>OPEN\<close> and the \<^verbatim>\<open>"open"\<close> listener has run.
\<close>

definition open_relay :: CoinbaseRelay where
  "open_relay = on_open (constructor\<lparr>coinbaseWs := Some OPEN\<rparr>)"

definition two_subscribers :: CoinbaseRelay where
  "two_subscribers =
     on_subscribe ''B'' ''BTC-USD'' (on_subscribe ''A'' ''BTC-USD'' open_relay)"

text \<open>
  A is subscribed to two symbols and shares one of them with B; both sockets are
  connected.
\<close>

definition three_subscriptions :: CoinbaseRelay where
  "three_subscriptions =
     on_subscribe ''A'' ''ETH-USD'' (two_subscribers\<lparr>sockets := {''A'', ''B''}\<rparr>)"

text \<open>A ticker message, and an acknowledgement whose second channel is \<^verbatim>\<open>null\<close>.\<close>

definition btc_ticker :: json where
  "btc_ticker = JObj [(''type'', JStr ''ticker''), (''product_id'', JStr ''BTC-USD''),
                      (''price'', JStr ''64000.01'')]"

definition bad_ack :: json where
  "bad_ack = JObj [(''type'', JStr ''subscriptions''),
                   (''channels'', JArr [JObj [(''name'', JStr ''ticker''),
                                              (''product_ids'', JArr [JStr ''BTC-USD''])],
                                        JNull])]"

section \<open>Properties\<close>

subsection \<open>Sets and the registry, seen through their elements\<close>

lemma elements_simps [simp]:
  "elements None = []" "elements (Some xs) = xs"
  by (simp_all add: elements_def)

lemma members_simps [simp]:
  "members None = {}" "members (Some xs) = set xs"
  by (simp_all add: members_def)

lemma set_set_add [simp]: "set (set_add x xs) = insert x (set xs)"
  by (auto simp: set_add_def)

lemma set_set_delete [simp]: "set (set_delete x xs) = set xs - {x}"
  by (auto simp: set_delete_def)

lemma set_add_not_Nil [simp]: "set_add x xs \<noteq> []"
  by (auto simp: set_add_def)

lemma set_delete_Nil [simp]: "(set_delete x xs = []) = (set xs \<subseteq> {x})"
  by (induction xs) (auto simp: set_delete_def)

lemma distinct_set_add [simp]: "distinct xs \<Longrightarrow> distinct (set_add x xs)"
  by (simp add: set_add_def)

lemma distinct_set_delete [simp]: "distinct xs \<Longrightarrow> distinct (set_delete x xs)"
  by (simp add: set_delete_def distinct_removeAll)

lemma add_subscriptions:
  "members (subscriptions (addSubscription sid p s) q) =
     (if q = p then insert sid (members (subscriptions s p)) else members (subscriptions s q))"
  by (auto simp: addSubscription_def Let_def split: option.splits)

lemma add_socketSubscriptions:
  "members (socketSubscriptions (addSubscription sid p s) t) =
     (if t = sid then insert p (members (socketSubscriptions s sid))
      else members (socketSubscriptions s t))"
  by (auto simp: addSubscription_def Let_def split: option.splits)

lemma remove_subscriptions:
  "members (subscriptions (removeSubscription sid p s) q) =
     (if q = p then members (subscriptions s p) - {sid} else members (subscriptions s q))"
  by (auto simp: removeSubscription_def Let_def split: option.splits)

lemma remove_socketSubscriptions:
  "members (socketSubscriptions (removeSubscription sid p s) t) =
     (if t = sid then members (socketSubscriptions s sid) - {p}
      else members (socketSubscriptions s t))"
  by (auto simp: removeSubscription_def Let_def split: option.splits)

lemma unsubscribe_registry [simp]:
  "subscriptions (unsubscribeFromCoinbase p s) = subscriptions s"
  "socketSubscriptions (unsubscribeFromCoinbase p s) = socketSubscriptions s"
  by (simp_all add: unsubscribeFromCoinbase_def Let_def)

lemma cleanup_step_registry [simp]:
  "subscriptions (cleanup_step sid p s) = subscriptions (removeSubscription sid p s)"
  "socketSubscriptions (cleanup_step sid p s) = socketSubscriptions (removeSubscription sid p s)"
  by (simp_all add: cleanup_step_def Let_def split: option.splits)

lemma cleanup_each_subscriptions:
  "members (subscriptions (cleanup_each sid ps s) q) =
     (if q \<in> set ps then members (subscriptions s q) - {sid} else members (subscriptions s q))"
proof (induction ps arbitrary: s)
  case Nil
  show ?case by simp
next
  case (Cons p ps)
  show ?case
    unfolding cleanup_each.simps Cons.IH
    by (auto simp: remove_subscriptions)
qed

lemma cleanup_each_socketSubscriptions:
  "members (socketSubscriptions (cleanup_each sid ps s) t) =
     (if t = sid then members (socketSubscriptions s sid) - set ps
      else members (socketSubscriptions s t))"
proof (induction ps arbitrary: s)
  case Nil
  show ?case by simp
next
  case (Cons p ps)
  show ?case
    unfolding cleanup_each.simps Cons.IH
    by (auto simp: remove_socketSubscriptions)
qed

lemma cleanup_subscriptions:
  "members (subscriptions (cleanupClient sid s) q) =
     (if q \<in> members (socketSubscriptions s sid) then members (subscriptions s q) - {sid}
      else members (subscriptions s q))"
  by (cases "socketSubscriptions s sid")
     (simp_all add: cleanupClient_def Let_def cleanup_each_subscriptions)

lemma cleanup_socketSubscriptions:
  "members (socketSubscriptions (cleanupClient sid s) t) =
     (if t = sid then {} else members (socketSubscriptions s t))"
  by (cases "socketSubscriptions s sid")
     (simp_all add: cleanupClient_def Let_def cleanup_each_socketSubscriptions)

lemma constructor_registry [simp]:
  "subscriptions constructor = Map.empty" "socketSubscriptions constructor = Map.empty"
  by (simp_all add: constructor_def initializeCoinbaseWebSocket_def field_defaults_def)

subsection \<open>The symmetry of the registry\<close>

lemma mirrored_apply_op: "mirrored s \<Longrightarrow> mirrored (apply_op x s)"
proof (cases x)
  case (Add sid p)
  assume "mirrored s"
  then show ?thesis
    unfolding mirrored_def using Add
    by (auto simp: add_subscriptions add_socketSubscriptions)
next
  case (Remove sid p)
  assume "mirrored s"
  then show ?thesis
    unfolding mirrored_def using Remove
    by (auto simp: remove_subscriptions remove_socketSubscriptions)
next
  case (Cleanup sid)
  assume "mirrored s"
  then show ?thesis
    unfolding mirrored_def using Cleanup
    by (auto simp: cleanup_subscriptions cleanup_socketSubscriptions)
qed

lemma mirrored_run_ops: "mirrored s \<Longrightarrow> mirrored (run_ops ops s)"
  by (induction ops arbitrary: s) (simp_all add: mirrored_apply_op)

lemma mirrored_constructor: "mirrored constructor"
  by (simp add: mirrored_def)

text \<open>
  C3. After any sequence of \<^verbatim>\<open>addSubscription\<close>, \<^verbatim>\<open>removeSubscription\<close> and
  \<^verbatim>\<open>cleanupClient\<close> calls on a new relay (hence also after each of its prefixes, that
  is between any two operations), a socket id is in \<^verbatim>\<open>subscriptions[symbol]\<close> exactly
  when the symbol is in \<^verbatim>\<open>socketSubscriptions[id]\<close>.
\<close>

theorem registry_symmetry:
  "(sid \<in> members (subscriptions (run_ops ops constructor) symbol)) =
   (symbol \<in> members (socketSubscriptions (run_ops ops constructor) sid))"
  using mirrored_run_ops [OF mirrored_constructor, of ops] by (simp add: mirrored_def)

subsection \<open>No empty entry stays in the registry\<close>

lemma no_empty_add: "no_empty_entry s \<Longrightarrow> no_empty_entry (addSubscription sid p s)"
  by (auto simp: no_empty_entry_def addSubscription_def Let_def split: option.splits)

lemma no_empty_remove: "no_empty_entry s \<Longrightarrow> no_empty_entry (removeSubscription sid p s)"
  by (auto simp: no_empty_entry_def removeSubscription_def Let_def split: option.splits)

lemma no_empty_cleanup_step:
  "no_empty_entry s \<Longrightarrow> no_empty_entry (cleanup_step sid p s)"
  using no_empty_remove [of s sid p] by (simp add: no_empty_entry_def)

lemma no_empty_cleanup_each:
  "no_empty_entry s \<Longrightarrow> no_empty_entry (cleanup_each sid ps s)"
proof (induction ps arbitrary: s)
  case Nil
  then show ?case by simp
next
  case (Cons p ps)
  then show ?case
    by (simp add: no_empty_cleanup_step)
qed

lemma no_empty_cleanup: "no_empty_entry s \<Longrightarrow> no_empty_entry (cleanupClient sid s)"
  using no_empty_cleanup_each [of s sid]
  by (auto simp: cleanupClient_def Let_def no_empty_entry_def split: option.splits)

lemma no_empty_apply_op: "no_empty_entry s \<Longrightarrow> no_empty_entry (apply_op x s)"
  by (cases x) (simp_all add: no_empty_add no_empty_remove no_empty_cleanup)

lemma no_empty_run_ops: "no_empty_entry s \<Longrightarrow> no_empty_entry (run_ops ops s)"
  by (induction ops arbitrary: s) (simp_all add: no_empty_apply_op)

text \<open>
  C4. After any sequence of \<^verbatim>\<open>addSubscription\<close>, \<^verbatim>\<open>removeSubscription\<close> and
  \<^verbatim>\<open>cleanupClient\<close> calls on a new relay, no key of \<^verbatim>\<open>subscriptions\<close> and no key of
  \<^verbatim>\<open>socketSubscriptions\<close> maps to an empty set.
\<close>

theorem no_empty_entries:
  "subscriptions (run_ops ops constructor) k \<noteq> Some [] \<and>
   socketSubscriptions (run_ops ops constructor) k \<noteq> Some []"
proof -
  have "no_empty_entry constructor"
    by (simp add: no_empty_entry_def)
  then have "no_empty_entry (run_ops ops constructor)"
    by (rule no_empty_run_ops)
  then show ?thesis
    by (simp add: no_empty_entry_def)
qed

subsection \<open>The sets of the registry stay sets\<close>

lemma distinct_sets_add: "distinct_sets s \<Longrightarrow> distinct_sets (addSubscription sid p s)"
  unfolding distinct_sets_def
proof (intro allI conjI)
  fix k
  assume inv: "\<forall>k. distinct (elements (subscriptions s k)) \<and>
                   distinct (elements (socketSubscriptions s k))"
  from inv have "distinct (elements (subscriptions s k))" "distinct (elements (subscriptions s p))"
    by simp_all
  then show "distinct (elements (subscriptions (addSubscription sid p s) k))"
    by (auto simp: addSubscription_def Let_def elements_def split: option.splits)
  from inv have "distinct (elements (socketSubscriptions s k))"
    "distinct (elements (socketSubscriptions s sid))"
    by simp_all
  then show "distinct (elements (socketSubscriptions (addSubscription sid p s) k))"
    by (auto simp: addSubscription_def Let_def elements_def split: option.splits)
qed

lemma distinct_sets_remove: "distinct_sets s \<Longrightarrow> distinct_sets (removeSubscription sid p s)"
  unfolding distinct_sets_def
proof (intro allI conjI)
  fix k
  assume inv: "\<forall>k. distinct (elements (subscriptions s k)) \<and>
                   distinct (elements (socketSubscriptions s k))"
  from inv have "distinct (elements (subscriptions s k))" "distinct (elements (subscriptions s p))"
    by simp_all
  then show "distinct (elements (subscriptions (removeSubscription sid p s) k))"
    by (auto simp: removeSubscription_def Let_def elements_def split: option.splits)
  from inv have "distinct (elements (socketSubscriptions s k))"
    "distinct (elements (socketSubscriptions s sid))"
    by simp_all
  then show "distinct (elements (socketSubscriptions (removeSubscription sid p s) k))"
    by (auto simp: removeSubscription_def Let_def elements_def split: option.splits)
qed

lemma distinct_sets_cleanup_each:
  "distinct_sets s \<Longrightarrow> distinct_sets (cleanup_each sid ps s)"
proof (induction ps arbitrary: s)
  case Nil
  then show ?case by simp
next
  case (Cons p ps)
  have "distinct_sets (cleanup_step sid p s)"
    using distinct_sets_remove [OF Cons.prems, of sid p] by (simp add: distinct_sets_def)
  then show ?case
    by (simp add: Cons.IH)
qed

lemma distinct_sets_cleanup: "distinct_sets s \<Longrightarrow> distinct_sets (cleanupClient sid s)"
  using distinct_sets_cleanup_each [of s sid "elements (socketSubscriptions s sid)"]
  by (simp add: cleanupClient_def Let_def distinct_sets_def)

lemma distinct_sets_requests:
  "distinct_sets s \<Longrightarrow> distinct_sets (on_subscribe sid p s)"
  "distinct_sets s \<Longrightarrow> distinct_sets (on_unsubscribe sid p s)"
  "distinct_sets s \<Longrightarrow> distinct_sets (on_disconnect sid s)"
proof -
  have sub: "distinct_sets (subscribeToCoinbase p t) = distinct_sets t" for t
    by (simp add: distinct_sets_def subscribeToCoinbase_def)
  have unsub: "distinct_sets (unsubscribeFromCoinbase p t) = distinct_sets t" for t
    by (simp add: distinct_sets_def)
  show "distinct_sets s \<Longrightarrow> distinct_sets (on_subscribe sid p s)"
    by (simp add: on_subscribe_def sub distinct_sets_add)
  show "distinct_sets s \<Longrightarrow> distinct_sets (on_unsubscribe sid p s)"
    by (simp add: on_unsubscribe_def unsub distinct_sets_remove)
  show "distinct_sets s \<Longrightarrow> distinct_sets (on_disconnect sid s)"
    by (simp add: on_disconnect_def distinct_sets_cleanup)
qed

lemma distinct_sets_constructor: "distinct_sets constructor"
  by (simp add: distinct_sets_def)

subsection \<open>What a request sends upstream\<close>

lemma add_frame [simp]:
  "coinbaseWs (addSubscription sid p s) = coinbaseWs s"
  "wsSent (addSubscription sid p s) = wsSent s"
  by (simp_all add: addSubscription_def Let_def split: option.splits)

lemma remove_frame [simp]:
  "coinbaseWs (removeSubscription sid p s) = coinbaseWs s"
  "wsSent (removeSubscription sid p s) = wsSent s"
  by (simp_all add: removeSubscription_def Let_def split: option.splits)

lemma wsSent_subscribe:
  "wsSent (subscribeToCoinbase p s) =
     (if coinbaseWs s = Some OPEN then wsSent s @ [subscribe_msg p] else wsSent s)"
  by (simp add: subscribeToCoinbase_def)

lemma coinbaseWs_subscribe [simp]: "coinbaseWs (subscribeToCoinbase p s) = coinbaseWs s"
  by (simp add: subscribeToCoinbase_def)

lemma wsSent_unsubscribe:
  "wsSent (unsubscribeFromCoinbase p s) =
     (if members (subscriptions s p) = {} \<and> coinbaseWs s = Some OPEN
      then wsSent s @ [unsubscribe_msg p] else wsSent s)"
  by (cases "subscriptions s p")
     (simp_all add: unsubscribeFromCoinbase_def Let_def)

lemma coinbaseWs_unsubscribe [simp]: "coinbaseWs (unsubscribeFromCoinbase p s) = coinbaseWs s"
  by (simp add: unsubscribeFromCoinbase_def Let_def)

lemma open_relay_simps [simp]:
  "coinbaseWs open_relay = Some OPEN" "wsSent open_relay = []"
  "subscriptions open_relay = Map.empty" "socketSubscriptions open_relay = Map.empty"
  by (simp_all add: open_relay_def on_open_def io_emit_def constructor_def
        initializeCoinbaseWebSocket_def field_defaults_def)

text \<open>
  C1, as the code has it. The \<^verbatim>\<open>"subscribe"\<close> listener calls \<^verbatim>\<open>subscribeToCoinbase\<close>
  after every \<^verbatim>\<open>addSubscription\<close>, whether or not the symbol already had a
  subscriber: with the upstream connection open, the request of A sends one upstream
  subscribe message for the symbol, and the request of B that follows sends one more.
\<close>

theorem subscribe_sent_on_every_request:
  assumes "coinbaseWs s = Some OPEN"
  shows "wsSent (on_subscribe a p s) = wsSent s @ [subscribe_msg p] \<and>
         wsSent (on_subscribe b p (on_subscribe a p s)) =
           wsSent (on_subscribe a p s) @ [subscribe_msg p]"
  using assms by (simp add: on_subscribe_def wsSent_subscribe)

theorem subscribe_sent_on_every_request_witness:
  "coinbaseWs open_relay = Some OPEN \<and>
   wsSent (on_subscribe ''A'' ''BTC-USD'' open_relay) = [subscribe_msg ''BTC-USD''] \<and>
   wsSent (on_subscribe ''B'' ''BTC-USD'' (on_subscribe ''A'' ''BTC-USD'' open_relay)) =
     [subscribe_msg ''BTC-USD'', subscribe_msg ''BTC-USD'']"
  using subscribe_sent_on_every_request [of open_relay "''A''" "''BTC-USD''" "''B''"]
  by simp

text \<open>
  C1 as stated fails: A and B are distinct, the connection is open, and the request of B
  does send an upstream message.
\<close>

theorem second_subscriber_sends_counterexample:
  "''A'' \<noteq> ''B'' \<and> coinbaseWs open_relay = Some OPEN \<and>
   wsSent (on_subscribe ''B'' ''BTC-USD'' (on_subscribe ''A'' ''BTC-USD'' open_relay)) \<noteq>
   wsSent (on_subscribe ''A'' ''BTC-USD'' open_relay)"
  by (simp add: on_subscribe_def wsSent_subscribe)

text \<open>
  C5. A symbol has exactly the two subscribers A and B and the upstream connection is
  open. The unsubscribe request of A sends nothing upstream; the unsubscribe request of B
  that follows sends exactly one upstream unsubscribe message for the symbol.
\<close>

theorem last_unsubscribe:
  assumes "coinbaseWs s = Some OPEN" and "a \<noteq> b"
    and "members (subscriptions s p) = {a, b}"
  shows "wsSent (on_unsubscribe a p s) = wsSent s \<and>
         wsSent (on_unsubscribe b p (on_unsubscribe a p s)) = wsSent s @ [unsubscribe_msg p]"
proof -
  let ?s1 = "on_unsubscribe a p s"
  have m1: "members (subscriptions (removeSubscription a p s) p) = {b}"
    using assms by (auto simp: remove_subscriptions)
  then have first: "wsSent ?s1 = wsSent s"
    by (simp add: on_unsubscribe_def wsSent_unsubscribe)
  have "members (subscriptions ?s1 p) = {b}"
    using m1 by (simp add: on_unsubscribe_def)
  then have "members (subscriptions (removeSubscription b p ?s1) p) = {}"
    by (simp add: remove_subscriptions)
  moreover have "coinbaseWs ?s1 = Some OPEN"
    using assms(1) by (simp add: on_unsubscribe_def)
  ultimately have "wsSent (on_unsubscribe b p ?s1) = wsSent ?s1 @ [unsubscribe_msg p]"
    by (simp add: on_unsubscribe_def [of b] wsSent_unsubscribe)
  with first show ?thesis by simp
qed

theorem last_unsubscribe_witness:
  "coinbaseWs two_subscribers = Some OPEN \<and> ''A'' \<noteq> ''B'' \<and>
   members (subscriptions two_subscribers ''BTC-USD'') = {''A'', ''B''} \<and>
   wsSent (on_unsubscribe ''A'' ''BTC-USD'' two_subscribers) = wsSent two_subscribers \<and>
   wsSent (on_unsubscribe ''B'' ''BTC-USD'' (on_unsubscribe ''A'' ''BTC-USD'' two_subscribers)) =
     wsSent two_subscribers @ [unsubscribe_msg ''BTC-USD'']"
proof -
  have h1: "coinbaseWs two_subscribers = Some OPEN"
    by (simp add: two_subscribers_def on_subscribe_def)
  have h2: "''A'' \<noteq> ''B''" by simp
  have h3: "members (subscriptions two_subscribers ''BTC-USD'') = {''A'', ''B''}"
    by (auto simp: two_subscribers_def on_subscribe_def subscribeToCoinbase_def
          add_subscriptions)
  show ?thesis
    using h1 h2 h3 last_unsubscribe [OF h1 h2 h3] by simp
qed

subsection \<open>Opening the upstream connection\<close>

text \<open>
  C2, as the code has it. The guard of \<^verbatim>\<open>initializeCoinbaseWebSocket\<close> tests for
  \<^verbatim>\<open>OPEN\<close> only: called while the connection is open it changes nothing and creates no
  WebSocket; called in any other state (no WebSocket yet, connecting, closing or closed)
  it creates a new WebSocket, and the connection is then connecting.
\<close>

theorem connect_guard:
  "(coinbaseWs s = Some OPEN \<longrightarrow> initializeCoinbaseWebSocket s = s) \<and>
   (coinbaseWs s \<noteq> Some OPEN \<longrightarrow>
      coinbaseWs (initializeCoinbaseWebSocket s) = Some CONNECTING \<and>
      wsCreated (initializeCoinbaseWebSocket s) = wsCreated s + 1)"
  by (simp add: initializeCoinbaseWebSocket_def)

theorem connect_guard_witness:
  "coinbaseWs open_relay = Some OPEN \<and> initializeCoinbaseWebSocket open_relay = open_relay \<and>
   coinbaseWs field_defaults \<noteq> Some OPEN \<and>
   coinbaseWs (initializeCoinbaseWebSocket field_defaults) = Some CONNECTING \<and>
   wsCreated (initializeCoinbaseWebSocket field_defaults) = 1"
  using connect_guard [of open_relay] connect_guard [of field_defaults]
  by (simp add: field_defaults_def)

text \<open>
  C2 as stated fails while connecting: a new relay is connecting, and a further call
  creates a second WebSocket.
\<close>

theorem connect_while_connecting_counterexample:
  "coinbaseWs constructor = Some CONNECTING \<and>
   wsCreated (initializeCoinbaseWebSocket constructor) \<noteq> wsCreated constructor"
  by (simp add: constructor_def initializeCoinbaseWebSocket_def field_defaults_def)

subsection \<open>A disconnecting client\<close>

lemma removed_None:
  "subscriptions (removeSubscription sid p s) p = None \<Longrightarrow>
   members (subscriptions s p) \<subseteq> {sid}"
  using remove_subscriptions [of sid p s p] by simp

lemma removed_Some:
  assumes "subscriptions (removeSubscription sid p s) p = Some subscribers"
  shows "(length subscribers = 0) = (members (subscriptions s p) \<subseteq> {sid})"
proof -
  have "set subscribers = members (subscriptions s p) - {sid}"
    using remove_subscriptions [of sid p s p] assms by simp
  then have "(set subscribers = {}) = (members (subscriptions s p) \<subseteq> {sid})"
    by (simp only: Diff_eq_empty_iff)
  then show ?thesis by simp
qed

lemma wsSent_cleanup_step:
  "wsSent (cleanup_step sid p s) =
     (if members (subscriptions s p) \<subseteq> {sid} \<and> coinbaseWs s = Some OPEN
      then wsSent s @ [unsubscribe_msg p] else wsSent s)"
proof (cases "subscriptions (removeSubscription sid p s) p")
  case None
  have "members (subscriptions s p) \<subseteq> {sid}"
    using None by (rule removed_None)
  moreover have "cleanup_step sid p s = unsubscribeFromCoinbase p (removeSubscription sid p s)"
    using None by (simp add: cleanup_step_def Let_def)
  ultimately show ?thesis
    using None by (simp add: wsSent_unsubscribe)
next
  case (Some subscribers)
  note iff = removed_Some [OF Some]
  show ?thesis
  proof (cases "length subscribers = 0")
    case True
    then have "cleanup_step sid p s = unsubscribeFromCoinbase p (removeSubscription sid p s)"
      using Some by (simp add: cleanup_step_def Let_def)
    moreover have "members (subscriptions s p) \<subseteq> {sid}"
      using True iff by simp
    ultimately show ?thesis
      using Some True by (simp add: wsSent_unsubscribe)
  next
    case False
    then have "cleanup_step sid p s = removeSubscription sid p s"
      using Some by (simp add: cleanup_step_def Let_def)
    moreover have "\<not> members (subscriptions s p) \<subseteq> {sid}"
      using False iff by simp
    ultimately show ?thesis
      by simp
  qed
qed

lemma coinbaseWs_cleanup_step [simp]: "coinbaseWs (cleanup_step sid p s) = coinbaseWs s"
  by (simp add: cleanup_step_def Let_def split: option.splits)

lemma wsSent_cleanup_each:
  "coinbaseWs s = Some OPEN \<Longrightarrow> distinct ps \<Longrightarrow>
   wsSent (cleanup_each sid ps s) =
     wsSent s @ map unsubscribe_msg
       (filter (\<lambda>p. members (subscriptions s p) \<subseteq> {sid}) ps)"
proof (induction ps arbitrary: s)
  case Nil
  then show ?case by simp
next
  case (Cons p ps)
  let ?s1 = "cleanup_step sid p s"
  have "members (subscriptions ?s1 q) = members (subscriptions s q)" if "q \<in> set ps" for q
    using that Cons.prems(2) by (auto simp: remove_subscriptions)
  then have same: "filter (\<lambda>q. members (subscriptions ?s1 q) \<subseteq> {sid}) ps =
              filter (\<lambda>q. members (subscriptions s q) \<subseteq> {sid}) ps"
    by (intro filter_cong refl) simp
  have "wsSent (cleanup_each sid ps ?s1) =
          wsSent ?s1 @ map unsubscribe_msg
            (filter (\<lambda>q. members (subscriptions ?s1 q) \<subseteq> {sid}) ps)"
    using Cons.prems by (intro Cons.IH) simp_all
  also have "\<dots> = wsSent ?s1 @ map unsubscribe_msg
            (filter (\<lambda>q. members (subscriptions s q) \<subseteq> {sid}) ps)"
    by (simp only: same)
  finally show ?case
    using Cons.prems(1) by (simp add: wsSent_cleanup_step)
qed

lemma wsSent_cleanupClient:
  "coinbaseWs s = Some OPEN \<Longrightarrow> distinct (elements (socketSubscriptions s sid)) \<Longrightarrow>
   wsSent (cleanupClient sid s) =
     wsSent s @ map unsubscribe_msg
       (filter (\<lambda>p. members (subscriptions s p) \<subseteq> {sid})
          (elements (socketSubscriptions s sid)))"
  by (simp add: cleanupClient_def Let_def wsSent_cleanup_each)

lemma inj_unsubscribe_msg: "inj unsubscribe_msg"
  by (simp add: inj_on_def unsubscribe_msg_def)

lemma count_list_distinct:
  "distinct xs \<Longrightarrow> count_list xs x = (if x \<in> set xs then 1 else 0)"
  by (induction xs) auto

text \<open>
  C6. A socket disconnects while the upstream connection is open. \<^verbatim>\<open>cleanupClient\<close>
  removes the socket's own entry, removes the socket from the entry of every symbol it
  was subscribed to, and sends upstream, in the order of the socket's set, one
  unsubscribe message for each of those symbols that is left without a subscriber:
  each such symbol gets exactly one message, and a symbol that still has another
  subscriber, or that the socket was not subscribed to, gets none. The symbols of a
  JavaScript set are distinct, and every request keeps them so
  (\<open>distinct_sets_requests\<close>).
\<close>

theorem disconnect_cleanup:
  assumes "coinbaseWs s = Some OPEN"
    and "distinct (elements (socketSubscriptions s sid))"
  shows "socketSubscriptions (on_disconnect sid s) sid = None \<and>
         (\<forall>p \<in> members (socketSubscriptions s sid).
            members (subscriptions (on_disconnect sid s) p) = members (subscriptions s p) - {sid}) \<and>
         wsSent (on_disconnect sid s) =
           wsSent s @ map unsubscribe_msg
             (filter (\<lambda>p. members (subscriptions s p) \<subseteq> {sid})
                (elements (socketSubscriptions s sid))) \<and>
         (\<forall>p. count_list (drop (length (wsSent s)) (wsSent (on_disconnect sid s)))
                 (unsubscribe_msg p) =
               (if p \<in> members (socketSubscriptions s sid) \<and>
                   members (subscriptions s p) \<subseteq> {sid}
                then 1 else 0))"
proof -
  let ?ps = "elements (socketSubscriptions s sid)"
  let ?new = "map unsubscribe_msg (filter (\<lambda>p. members (subscriptions s p) \<subseteq> {sid}) ?ps)"
  have gone: "socketSubscriptions (on_disconnect sid s) sid = None"
    by (simp add: on_disconnect_def cleanupClient_def Let_def)
  have removed: "\<forall>p \<in> members (socketSubscriptions s sid).
      members (subscriptions (on_disconnect sid s) p) = members (subscriptions s p) - {sid}"
    by (simp add: on_disconnect_def cleanup_subscriptions)
  have sent: "wsSent (on_disconnect sid s) = wsSent s @ ?new"
    using assms by (simp add: on_disconnect_def wsSent_cleanupClient)
  have "count_list ?new (unsubscribe_msg p) =
      (if p \<in> members (socketSubscriptions s sid) \<and> members (subscriptions s p) \<subseteq> {sid}
       then 1 else 0)" for p
  proof -
    have "count_list ?new (unsubscribe_msg p) =
          count_list (filter (\<lambda>p. members (subscriptions s p) \<subseteq> {sid}) ?ps) p"
      by (rule count_list_map_conv [OF inj_unsubscribe_msg])
    also have "\<dots> = (if p \<in> set (filter (\<lambda>p. members (subscriptions s p) \<subseteq> {sid}) ?ps)
                     then 1 else 0)"
      using assms(2) by (intro count_list_distinct) simp
    finally show ?thesis
      by (simp add: members_def)
  qed
  then have once: "\<forall>p. count_list (drop (length (wsSent s)) (wsSent (on_disconnect sid s)))
                 (unsubscribe_msg p) =
               (if p \<in> members (socketSubscriptions s sid) \<and>
                   members (subscriptions s p) \<subseteq> {sid}
                then 1 else 0)"
    unfolding sent by simp
  show ?thesis
    using gone removed sent once by (intro conjI)
qed

lemma two_subscribers_registry:
  "subscriptions two_subscribers = [''BTC-USD'' \<mapsto> [''A'', ''B'']]"
  "socketSubscriptions two_subscribers = [''A'' \<mapsto> [''BTC-USD''], ''B'' \<mapsto> [''BTC-USD'']]"
  by (simp_all add: two_subscribers_def on_subscribe_def subscribeToCoinbase_def
        addSubscription_def Let_def set_add_def)


lemma two_subscribers_open [simp]:
  "coinbaseWs two_subscribers = Some OPEN" "wsSent two_subscribers = [subscribe_msg ''BTC-USD'', subscribe_msg ''BTC-USD'']"
  by (simp_all add: two_subscribers_def on_subscribe_def wsSent_subscribe)

lemma three_subscriptions_registry:
  "subscriptions three_subscriptions =
     [''BTC-USD'' \<mapsto> [''A'', ''B''], ''ETH-USD'' \<mapsto> [''A'']]"
  "socketSubscriptions three_subscriptions =
     [''A'' \<mapsto> [''BTC-USD'', ''ETH-USD''], ''B'' \<mapsto> [''BTC-USD'']]"
  by (simp_all add: three_subscriptions_def on_subscribe_def subscribeToCoinbase_def
        addSubscription_def Let_def set_add_def two_subscribers_registry fun_upd_twist)

lemma three_subscriptions_frame [simp]:
  "coinbaseWs three_subscriptions = Some OPEN"
  "sockets three_subscriptions = {''A'', ''B''}"
  by (simp_all add: three_subscriptions_def on_subscribe_def subscribeToCoinbase_def
        addSubscription_def Let_def split: option.splits)


theorem disconnect_cleanup_witness:
  "coinbaseWs three_subscriptions = Some OPEN \<and>
   distinct (elements (socketSubscriptions three_subscriptions ''A'')) \<and>
   members (socketSubscriptions three_subscriptions ''A'') = {''BTC-USD'', ''ETH-USD''} \<and>
   socketSubscriptions (on_disconnect ''A'' three_subscriptions) ''A'' = None \<and>
   members (subscriptions (on_disconnect ''A'' three_subscriptions) ''BTC-USD'') = {''B''} \<and>
   members (subscriptions (on_disconnect ''A'' three_subscriptions) ''ETH-USD'') = {} \<and>
   wsSent (on_disconnect ''A'' three_subscriptions) =
     wsSent three_subscriptions @ [unsubscribe_msg ''ETH-USD'']"
proof -
  have h1: "coinbaseWs three_subscriptions = Some OPEN"
    by simp
  have h2: "distinct (elements (socketSubscriptions three_subscriptions ''A''))"
    by (simp add: three_subscriptions_registry)
  have h3: "members (socketSubscriptions three_subscriptions ''A'') = {''BTC-USD'', ''ETH-USD''}"
    by (simp add: three_subscriptions_registry)
  have btc: "members (subscriptions three_subscriptions ''BTC-USD'') - {''A''} = {''B''}"
    by (auto simp: three_subscriptions_registry)
  have eth: "members (subscriptions three_subscriptions ''ETH-USD'') - {''A''} = {}"
    by (simp add: three_subscriptions_registry)
  have sel: "filter (\<lambda>p. members (subscriptions three_subscriptions p) \<subseteq> {''A''})
               (elements (socketSubscriptions three_subscriptions ''A'')) = [''ETH-USD'']"
    by (simp add: three_subscriptions_registry)
  show ?thesis
    using disconnect_cleanup [OF h1 h2] h2
    unfolding h3 sel by (simp add: btc eth)
qed


subsection \<open>Reconnecting with backoff\<close>

lemma initialize_frame [simp]:
  "reconnectAttempts (initializeCoinbaseWebSocket s) = reconnectAttempts s"
  "timeouts (initializeCoinbaseWebSocket s) = timeouts s"
  by (simp_all add: initializeCoinbaseWebSocket_def)

lemma socket_closed_frame [simp]:
  "reconnectAttempts (socket_closed s) = reconnectAttempts s"
  "timeouts (socket_closed s) = timeouts s"
  "wsCreated (socket_closed s) = wsCreated s"
  "coinbaseWs (socket_closed s) \<noteq> Some OPEN"
  by (simp_all add: socket_closed_def split: option.splits)


lemma on_close_frame [simp]:
  "reconnectAttempts (on_close s) = reconnectAttempts s"
  "wsCreated (on_close s) = wsCreated s"
  "coinbaseWs (on_close s) = coinbaseWs s"
  by (simp_all add: on_close_def io_emit_def Let_def)


lemma close_event_frame [simp]:
  "reconnectAttempts (close_event s) = reconnectAttempts s"
  "wsCreated (close_event s) = wsCreated s"
  "coinbaseWs (close_event s) \<noteq> Some OPEN"
  by (simp_all add: close_event_def)


lemma on_timeout_simps [simp]:
  "reconnectAttempts (on_timeout s) = reconnectAttempts s + 1"
  "timeouts (on_timeout s) = timeouts s"
  by (simp_all add: on_timeout_def)






subsection \<open>Inbound messages\<close>

lemma emit_each_eq:
  "emit_each event message subs s =
     s\<lparr>emitted := emitted s @
          map (\<lambda>sid. (ToSocket sid, event, Message message))
              (filter (\<lambda>sid. sid \<in> sockets s) subs)\<rparr>"
  by (induction subs arbitrary: s) simp_all

lemma handleTickerMessage_eq:
  assumes "map_of kvs ''product_id'' = Some (JStr p)" and "p \<noteq> []"
  shows "handleTickerMessage (JObj kvs) s =
     Inr (s\<lparr>emitted := emitted s @
          map (\<lambda>sid. (ToSocket sid, ''ticker'', Message (JObj kvs)))
              (filter (\<lambda>sid. sid \<in> sockets s) (elements (subscriptions s p)))\<rparr>)"
proof (cases "subscriptions s p")
  case None
  then show ?thesis
    using assms by (simp add: handleTickerMessage_def)
next
  case (Some subscribers)
  then show ?thesis
    using assms by (cases subscribers) (simp_all add: handleTickerMessage_def emit_each_eq)
qed

text \<open>
  C8. An inbound message of type \<^verbatim>\<open>ticker\<close> carrying the symbol \<open>p\<close> changes nothing
  but the log of emitted events, to which it adds one \<^verbatim>\<open>ticker\<close> event, carrying the
  message, for each subscriber in \<^verbatim>\<open>subscriptions[p]\<close> whose socket is connected, in
  the order of the set, and no other event. When the subscribers of \<open>p\<close> are connected
  sockets, the recipients are exactly the subscribers of \<open>p\<close>.
\<close>

theorem ticker_routing:
  assumes "JSON_parse data = Inr (JObj kvs)"
    and "map_of kvs ''type'' = Some (JStr ''ticker'')"
    and "map_of kvs ''product_id'' = Some (JStr p)" and "p \<noteq> []"
  shows "on_message JSON_parse data s =
           s\<lparr>emitted := emitted s @
                map (\<lambda>sid. (ToSocket sid, ''ticker'', Message (JObj kvs)))
                    (filter (\<lambda>sid. sid \<in> sockets s) (elements (subscriptions s p)))\<rparr> \<and>
         (members (subscriptions s p) \<subseteq> sockets s \<longrightarrow>
            emitted (on_message JSON_parse data s) =
              emitted s @ map (\<lambda>sid. (ToSocket sid, ''ticker'', Message (JObj kvs)))
                              (elements (subscriptions s p)))"
proof -
  have run: "on_message JSON_parse data s =
           s\<lparr>emitted := emitted s @
                map (\<lambda>sid. (ToSocket sid, ''ticker'', Message (JObj kvs)))
                    (filter (\<lambda>sid. sid \<in> sockets s) (elements (subscriptions s p)))\<rparr>"
    using assms
    by (simp add: on_message_def dispatch_parsed_def handleTickerMessage_eq)
  have "filter (\<lambda>sid. sid \<in> sockets s) (elements (subscriptions s p)) =
        elements (subscriptions s p)" if "members (subscriptions s p) \<subseteq> sockets s"
    using that by (auto simp: members_def filter_id_conv)
  with run show ?thesis by simp
qed

theorem ticker_routing_witness:
  "members (subscriptions three_subscriptions ''BTC-USD'') \<subseteq> sockets three_subscriptions \<and>
   emitted (on_message (\<lambda>d. Inr btc_ticker) ''{...}'' three_subscriptions) =
     emitted three_subscriptions @
       [(ToSocket ''A'', ''ticker'', Message btc_ticker),
        (ToSocket ''B'', ''ticker'', Message btc_ticker)]"
proof -
  have h2: "map_of [(''type'', JStr ''ticker''), (''product_id'', JStr ''BTC-USD''),
                      (''price'', JStr ''64000.01'')] ''type'' = Some (JStr ''ticker'')"
    by simp
  have h3: "map_of [(''type'', JStr ''ticker''), (''product_id'', JStr ''BTC-USD''),
                      (''price'', JStr ''64000.01'')] ''product_id'' = Some (JStr ''BTC-USD'')"
    by simp
  have h4: "''BTC-USD'' \<noteq> []" by simp
  have h1: "(\<lambda>d. Inr btc_ticker) ''{...}'' = Inr (JObj [(''type'', JStr ''ticker''), (''product_id'', JStr ''BTC-USD''),
                      (''price'', JStr ''64000.01'')])"
    by (simp add: btc_ticker_def)
  have live: "members (subscriptions three_subscriptions ''BTC-USD'') \<subseteq> sockets three_subscriptions"
    by (simp add: three_subscriptions_registry)
  show ?thesis
    using ticker_routing [OF h1 h2 h3 h4, where s = three_subscriptions] live
    by (simp add: three_subscriptions_registry btc_ticker_def)
qed


lemma handleTickerMessage_throw:
  "handleTickerMessage message s = Inl (e, s') \<Longrightarrow> s' = s"
  by (auto simp: handleTickerMessage_def split: sum.splits if_splits option.splits)

lemma handleSubscriptionMessage_throw:
  "handleSubscriptionMessage message s = Inl (e, s') \<Longrightarrow> s' = s"
  by (auto simp: handleSubscriptionMessage_def
      split: sum.splits if_splits option.splits json.splits)

lemma dispatch_parsed_throw:
  "dispatch_parsed parsed s = Inl (e, s') \<Longrightarrow> s' = s"
  by (auto simp: dispatch_parsed_def
      dest: handleTickerMessage_throw handleSubscriptionMessage_throw
      split: sum.splits if_splits)

text \<open>
  C9. When \<^verbatim>\<open>JSON.parse\<close> throws, or when anything after it in the \<^verbatim>\<open>try\<close> block
  throws, the \<^verbatim>\<open>"message"\<close> listener returns the relay exactly as it was: no event is
  emitted, and the registry and the connection are unchanged.
\<close>

theorem malformed_message_dropped:
  assumes "(\<exists>e. JSON_parse data = Inl e) \<or>
           (\<exists>parsed e s'. JSON_parse data = Inr parsed \<and>
                            dispatch_parsed parsed s = Inl (e, s'))"
  shows "on_message JSON_parse data s = s"
  using assms
  by (auto simp: on_message_def dest: dispatch_parsed_throw)

lemma bad_ack_throws: "dispatch_parsed bad_ack s = Inl (TypeError, s)"
  by (simp add: bad_ack_def dispatch_parsed_def handleSubscriptionMessage_def
        channel_product_ids_def)

theorem malformed_message_dropped_witness:
  "on_message (\<lambda>d. Inl SyntaxError) ''not json'' three_subscriptions = three_subscriptions \<and>
   dispatch_parsed JNull three_subscriptions = Inl (TypeError, three_subscriptions) \<and>
   on_message (\<lambda>d. Inr JNull) ''null'' three_subscriptions = three_subscriptions \<and>
   dispatch_parsed bad_ack three_subscriptions = Inl (TypeError, three_subscriptions) \<and>
   on_message (\<lambda>d. Inr bad_ack) ''{...}'' three_subscriptions = three_subscriptions"
proof -
  have null: "dispatch_parsed JNull three_subscriptions = Inl (TypeError, three_subscriptions)"
    by (simp add: dispatch_parsed_def)
  have "on_message (\<lambda>d. Inl SyntaxError) ''not json'' three_subscriptions = three_subscriptions"
    using malformed_message_dropped [of "\<lambda>d. Inl SyntaxError" "''not json''" three_subscriptions]
    by simp
  moreover have "on_message (\<lambda>d. Inr JNull) ''null'' three_subscriptions = three_subscriptions"
    using malformed_message_dropped [of "\<lambda>d. Inr JNull" "''null''" three_subscriptions] null
    by simp
  moreover have "on_message (\<lambda>d. Inr bad_ack) ''{...}'' three_subscriptions = three_subscriptions"
    using malformed_message_dropped [of "\<lambda>d. Inr bad_ack" "''{...}''" three_subscriptions]
      bad_ack_throws [of three_subscriptions]
    by simp
  ultimately show ?thesis
    using null bad_ack_throws [of three_subscriptions] by simp
qed

text \<open>
  C10. An inbound message of type \<^verbatim>\<open>ticker\<close> whose \<^verbatim>\<open>product_id\<close> is absent or the
  empty string throws nothing and leaves the relay exactly as it was.
\<close>

theorem ticker_without_product_id:
  assumes "JSON_parse data = Inr (JObj kvs)"
    and "map_of kvs ''type'' = Some (JStr ''ticker'')"
    and "map_of kvs ''product_id'' = None \<or> map_of kvs ''product_id'' = Some (JStr [])"
  shows "dispatch_parsed (JObj kvs) s = Inr s \<and> on_message JSON_parse data s = s"
  using assms by (auto simp: on_message_def dispatch_parsed_def)

theorem ticker_without_product_id_witness:
  "dispatch_parsed (JObj [(''type'', JStr ''ticker''), (''price'', JStr ''1'')])
     three_subscriptions = Inr three_subscriptions \<and>
   on_message (\<lambda>d. Inr (JObj [(''type'', JStr ''ticker''), (''price'', JStr ''1'')])) ''{...}''
     three_subscriptions = three_subscriptions \<and>
   dispatch_parsed (JObj [(''type'', JStr ''ticker''), (''product_id'', JStr [])])
     three_subscriptions = Inr three_subscriptions \<and>
   on_message (\<lambda>d. Inr (JObj [(''type'', JStr ''ticker''), (''product_id'', JStr [])])) ''{...}''
     three_subscriptions = three_subscriptions"
  using ticker_without_product_id
          [of "\<lambda>d. Inr (JObj [(''type'', JStr ''ticker''), (''price'', JStr ''1'')])" "''{...}''"
              "[(''type'', JStr ''ticker''), (''price'', JStr ''1'')]" three_subscriptions]
        ticker_without_product_id
          [of "\<lambda>d. Inr (JObj [(''type'', JStr ''ticker''), (''product_id'', JStr [])])" "''{...}''"
              "[(''type'', JStr ''ticker''), (''product_id'', JStr [])]" three_subscriptions]
  by simp

end
